theory Spec2Isabelle
  imports Main "HOL-Library.Sublist"
begin

section \<open>Data model\<close>

text \<open>
  Python strings are modelled as \<open>string\<close>, read as sequences of code points below 256.
  The substring test \<^verbatim>\<open>a in b\<close> on strings is \<open>sublist a b\<close> (a contiguous run of \<open>b\<close>).
\<close>

text \<open>JSON documents, as parsed by \<^verbatim>\<open>json.loads\<close> (floating point numbers are left out).\<close>

datatype json =
    JNull
  | JBool bool
  | JNum int
  | JStr string
  | JArr "json list"
  | JObj "(string \<times> json) list"

text \<open>
  LangChain message objects. \<open>SystemMessage\<close> stands for the subclasses of
  \<^verbatim>\<open>BaseMessage\<close> other than the two the store knows how to rebuild.
\<close>

datatype msg_class = HumanMessage | AIMessage | SystemMessage

record base_message =
  cls :: msg_class
  content :: string
  additional_kwargs :: "(string \<times> json) list"

definition human_message :: "string \<Rightarrow> base_message" where
  "human_message c = \<lparr>cls = HumanMessage, content = c, additional_kwargs = []\<rparr>"

definition ai_message :: "string \<Rightarrow> base_message" where
  "ai_message c = \<lparr>cls = AIMessage, content = c, additional_kwargs = []\<rparr>"

text \<open>
  The exceptions the modelled code can raise. \<open>OutsideModel\<close> is not one of them: it
  is the model's answer on a stored message whose content is a list of blocks, which the
  message classes accept and which the message type here, with its textual content, does
  not represent.
\<close>

datatype error =
    ClientError string
  | UnicodeDecodeError
  | JSONDecodeError
  | TypeError
  | KeyError string
  | AttributeError
  | ValidationError
  | IndexError
  | OutsideModel

text \<open>An entry of the static knowledge base (\<^verbatim>\<open>qa_pairs.json\<close>).\<close>

record qa_pair =
  question :: string
  answer :: string

section \<open>Rule matcher: \<^verbatim>\<open>ChatService._call_model\<close>\<close>

definition lower_char :: "char \<Rightarrow> char" where
  "lower_char c =
     (let n = (of_char c :: nat)
      in if (65 \<le> n \<and> n \<le> 90) \<or> (192 \<le> n \<and> n \<le> 222 \<and> n \<noteq> 215)
         then char_of (n + 32) else c)"

definition lower :: "string \<Rightarrow> string" where
  "lower s = map lower_char s"

definition topic_keywords :: "(string \<times> string list) list" where
  "topic_keywords =
    [(''business hours'',
        [''hour'', ''open'', ''close'', ''time'', ''operating'', ''when do you'']),
     (''password reset'',
        [''password'', ''login'', ''account'', ''reset'', ''forgot'',
         ''recover'', ''change'', ''update'', ''lost'', ''cant log'',
         ''can'' @ [CHR 0x27] @ ''t log'',
         ''how do i reset'', ''how to reset'', ''how can i reset'']),
     (''payment methods'',
        [''pay'', ''payment'', ''credit card'', ''invoice'', ''method'', ''how to pay'']),
     (''customer support'',
        [''contact'', ''support'', ''help'', ''email'', ''phone'', ''reach'', ''speak to'']),
     (''refund policy'',
        [''refund'', ''return'', ''money back'', ''guarantee'', ''cancel'',
         ''get money back''])]"

definition refusal :: string where
  "refusal = ''I can only answer questions about our business operations.''"

text \<open>\<^verbatim>\<open>pair["question"].lower() in last_message\<close>\<close>

definition exact_match :: "string \<Rightarrow> qa_pair \<Rightarrow> bool" where
  "exact_match last_message pair = sublist (lower (question pair)) last_message"

text \<open>\<^verbatim>\<open>any(f" {kw} " in f" {last_message} " for kw in keywords)\<close>\<close>

definition keyword_hit :: "string \<Rightarrow> string list \<Rightarrow> bool" where
  "keyword_hit last_message keywords =
     list_ex (\<lambda>kw. sublist ('' '' @ kw @ '' '') ('' '' @ last_message @ '' '')) keywords"

text \<open>\<^verbatim>\<open>topic in p["question"].lower()\<close>\<close>

definition relevant :: "string \<Rightarrow> qa_pair \<Rightarrow> bool" where
  "relevant topic p = sublist topic (lower (question p))"

text \<open>
  The second loop of \<^verbatim>\<open>_call_model\<close>, over the topics in declaration order. A topic
  whose keywords hit but for which \<^verbatim>\<open>next(..., None)\<close> finds no pair is passed over
  (the guard \<^verbatim>\<open>if relevant_pair:\<close>), and the loop goes on to the next topic.
\<close>

fun related :: "qa_pair list \<Rightarrow> string \<Rightarrow> (string \<times> string list) list \<Rightarrow> qa_pair option" where
  "related qa_pairs last_message [] = None"
| "related qa_pairs last_message ((topic, keywords) # rest) =
     (if keyword_hit last_message keywords then
        (case find (relevant topic) qa_pairs of
           Some relevant_pair \<Rightarrow> Some relevant_pair
         | None \<Rightarrow> related qa_pairs last_message rest)
      else related qa_pairs last_message rest)"

text \<open>
  \<^verbatim>\<open>_call_model\<close> on the base_message list of the state; the result is the \<^verbatim>\<open>"messages"\<close>
  entry of the returned dictionary. \<^verbatim>\<open>state['messages'][-1]\<close> raises \<^verbatim>\<open>IndexError\<close> on
  an empty list, which the handler logs and raises again.
\<close>

definition last_text :: "base_message list \<Rightarrow> string" where
  "last_text messages = lower (content (last messages))"

definition call_model :: "qa_pair list \<Rightarrow> base_message list \<Rightarrow> error + base_message list" where
  "call_model qa_pairs messages =
     (if messages = [] then Inl IndexError
      else
        let last_message = last_text messages in
        case find (exact_match last_message) qa_pairs of
          Some pair \<Rightarrow> Inr (messages @ [ai_message (answer pair)])
        | None \<Rightarrow>
            (case related qa_pairs last_message topic_keywords of
               Some relevant_pair \<Rightarrow> Inr (messages @ [ai_message (answer relevant_pair)])
             | None \<Rightarrow> Inr (messages @ [ai_message refusal])))"


section \<open>Response formatter: \<^verbatim>\<open>ChatService._format_response\<close>\<close>

text \<open>\<^verbatim>\<open>str.isspace\<close> on the code points below 256.\<close>

definition is_space :: "char \<Rightarrow> bool" where
  "is_space c =
     (let n = (of_char c :: nat)
      in (9 \<le> n \<and> n \<le> 13) \<or> (28 \<le> n \<and> n \<le> 32) \<or> n = 133 \<or> n = 160)"

text \<open>\<^verbatim>\<open>str.strip()\<close>\<close>

definition strip :: "string \<Rightarrow> string" where
  "strip s = rev (dropWhile is_space (rev (dropWhile is_space s)))"

text \<open>
  \<^verbatim>\<open>text.split(sep)\<close> for a non-empty separator: the occurrences of \<open>sep\<close> are found
  from the left and do not overlap. (Python raises \<^verbatim>\<open>ValueError\<close> on an empty separator;
  the only call passes the literal of two newlines.)
\<close>

function split :: "string \<Rightarrow> string \<Rightarrow> string list" where
  "split sep [] = [[]]"
| "split sep (c # cs) =
     (if sep \<noteq> [] \<and> prefix sep (c # cs)
      then [] # split sep (drop (length sep) (c # cs))
      else (case split sep cs of
              p # ps \<Rightarrow> (c # p) # ps
            | [] \<Rightarrow> [[c]]))"
  by pat_completeness auto
termination
  by (relation "measure (\<lambda>(sep, s). length s)") auto

text \<open>\<^verbatim>\<open>sep.join(parts)\<close>\<close>

fun join :: "string \<Rightarrow> string list \<Rightarrow> string" where
  "join sep [] = []"
| "join sep [p] = p"
| "join sep (p # q # ps) = p @ sep @ join sep (q # ps)"

text \<open>The separator \<^verbatim>\<open>'\n\n'\<close>.\<close>

definition nn :: string where
  "nn = [CHR 0x0A, CHR 0x0A]"

text \<open>\<^verbatim>\<open>[p.strip() for p in text.split('\n\n') if p.strip()]\<close>, on the stripped text.\<close>

definition paragraphs_of :: "string \<Rightarrow> string list" where
  "paragraphs_of text = map strip (filter (\<lambda>p. strip p \<noteq> []) (split nn (strip text)))"

definition format_response :: "string \<Rightarrow> string" where
  "format_response text = join nn (paragraphs_of text)"

text \<open>
  A paragraph as the formatter leaves it: not empty, no white space at either end, and no
  blank-line separator inside.
\<close>

definition clean_paragraph :: "string \<Rightarrow> bool" where
  "clean_paragraph p \<longleftrightarrow>
     p \<noteq> [] \<and> \<not> is_space (hd p) \<and> \<not> is_space (last p) \<and> \<not> sublist nn p"

section \<open>Checkpoint store: \<^verbatim>\<open>S3MemorySaver\<close>\<close>

text \<open>
  Python values as they travel through the store: what \<^verbatim>\<open>put\<close> is given and what
  \<^verbatim>\<open>_deserialize_messages\<close> returns. Dictionaries are association lists in insertion
  order, looked up with \<open>map_of\<close>.
\<close>

datatype pyval =
    PNone
  | PBool bool
  | PInt int
  | PStr string
  | PList "pyval list"
  | PDict "(string \<times> pyval) list"
  | PMsg base_message

text \<open>\<^verbatim>\<open>obj.__class__.__name__\<close> and \<^verbatim>\<open>obj.type\<close> of a message.\<close>

fun class_name :: "msg_class \<Rightarrow> string" where
  "class_name HumanMessage = ''HumanMessage''"
| "class_name AIMessage = ''AIMessage''"
| "class_name SystemMessage = ''SystemMessage''"

fun type_tag :: "msg_class \<Rightarrow> string" where
  "type_tag HumanMessage = ''human''"
| "type_tag AIMessage = ''ai''"
| "type_tag SystemMessage = ''system''"

text \<open>\<^verbatim>\<open>MessageEncoder.default\<close> on a \<^verbatim>\<open>BaseMessage\<close>.\<close>

definition MessageEncoder_default :: "base_message \<Rightarrow> json" where
  "MessageEncoder_default obj =
     JObj [(''_type'', JStr (class_name (cls obj))),
           (''content'', JStr (content obj)),
           (''additional_kwargs'', JObj (additional_kwargs obj)),
           (''type'', JStr (type_tag (cls obj)))]"

text \<open>
  \<^verbatim>\<open>json.dumps(value, cls=MessageEncoder)\<close>, as the document \<^verbatim>\<open>json.loads\<close> parses back
  from the text written.
\<close>

fun dumps :: "pyval \<Rightarrow> json" where
  "dumps PNone = JNull"
| "dumps (PBool b) = JBool b"
| "dumps (PInt i) = JNum i"
| "dumps (PStr s) = JStr s"
| "dumps (PList xs) = JArr (map dumps xs)"
| "dumps (PDict kvs) = JObj (map (\<lambda>kv. (fst kv, dumps (snd kv))) kvs)"
| "dumps (PMsg obj) = MessageEncoder_default obj"

text \<open>
  \<^verbatim>\<open>HumanMessage(content=data['content'], additional_kwargs=data['additional_kwargs'])\<close>
  and the same for \<^verbatim>\<open>AIMessage\<close>. A missing key raises \<^verbatim>\<open>KeyError\<close>, \<^verbatim>\<open>'content'\<close>
  being read first. Keyword arguments that are not a dictionary fail the validation of
  \<^verbatim>\<open>HumanMessage\<close>; \<^verbatim>\<open>AIMessage\<close> looks into them for tool calls before any validation
  and raises \<^verbatim>\<open>AttributeError\<close>. With a dictionary of keyword arguments, textual content
  gives the message object; a list of content blocks, which both classes accept, is
  outside this model; any other content fails the validation.
\<close>

definition make_message :: "msg_class \<Rightarrow> (string \<times> json) list \<Rightarrow> error + pyval" where
  "make_message c data =
     (case map_of data ''content'' of
        None \<Rightarrow> Inl (KeyError ''content'')
      | Some cv \<Rightarrow>
          (case map_of data ''additional_kwargs'' of
             None \<Rightarrow> Inl (KeyError ''additional_kwargs'')
           | Some kw \<Rightarrow>
               (case kw of
                  JObj a \<Rightarrow>
                    (case cv of
                       JStr s \<Rightarrow> Inr (PMsg \<lparr>cls = c, content = s, additional_kwargs = a\<rparr>)
                     | JArr blocks \<Rightarrow> Inl OutsideModel
                     | _ \<Rightarrow> Inl ValidationError)
                | _ \<Rightarrow> if c = AIMessage then Inl AttributeError else Inl ValidationError)))"

text \<open>
  \<^verbatim>\<open>S3MemorySaver._deserialize_messages\<close>. A dictionary tagged \<^verbatim>\<open>HumanMessage\<close> or
  \<^verbatim>\<open>AIMessage\<close> becomes a message object; a dictionary with any other tag, or with none,
  is rebuilt entry by entry; the first exception of a comprehension ends it.
\<close>

fun deserialize_messages :: "json \<Rightarrow> error + pyval"
  and deserialize_list :: "json list \<Rightarrow> error + pyval list"
  and deserialize_items :: "(string \<times> json) list \<Rightarrow> error + (string \<times> pyval) list" where
  "deserialize_messages JNull = Inr PNone"
| "deserialize_messages (JBool b) = Inr (PBool b)"
| "deserialize_messages (JNum i) = Inr (PInt i)"
| "deserialize_messages (JStr s) = Inr (PStr s)"
| "deserialize_messages (JArr xs) =
     (case deserialize_list xs of Inl e \<Rightarrow> Inl e | Inr vs \<Rightarrow> Inr (PList vs))"
| "deserialize_messages (JObj data) =
     (if map_of data ''_type'' = Some (JStr ''HumanMessage'') then make_message HumanMessage data
      else if map_of data ''_type'' = Some (JStr ''AIMessage'') then make_message AIMessage data
      else (case deserialize_items data of Inl e \<Rightarrow> Inl e | Inr kvs \<Rightarrow> Inr (PDict kvs)))"
| "deserialize_list [] = Inr []"
| "deserialize_list (x # xs) =
     (case deserialize_messages x of
        Inl e \<Rightarrow> Inl e
      | Inr v \<Rightarrow> (case deserialize_list xs of Inl e \<Rightarrow> Inl e | Inr vs \<Rightarrow> Inr (v # vs)))"
| "deserialize_items [] = Inr []"
| "deserialize_items ((k, x) # kxs) =
     (case deserialize_messages x of
        Inl e \<Rightarrow> Inl e
      | Inr v \<Rightarrow> (case deserialize_items kxs of Inl e \<Rightarrow> Inl e | Inr kvs \<Rightarrow> Inr ((k, v) # kvs)))"

text \<open>
  The blob backend. An object's body is a JSON text, a text that is not JSON, or bytes
  that are not UTF-8; \<open>get_fault\<close> and \<open>put_fault\<close> hold the error code with which the
  service currently answers reads and writes, if it is failing.
\<close>

datatype blob = Json json | NotJson | NotUtf8

record s3 =
  objects :: "string \<rightharpoonup> blob"
  get_fault :: "string option"
  put_fault :: "string option"

definition get_object :: "s3 \<Rightarrow> string \<Rightarrow> error + blob" where
  "get_object s3_client key =
     (case get_fault s3_client of
        Some code \<Rightarrow> Inl (ClientError code)
      | None \<Rightarrow>
          (case objects s3_client key of
             None \<Rightarrow> Inl (ClientError ''NoSuchKey'')
           | Some body \<Rightarrow> Inr body))"

definition put_object :: "s3 \<Rightarrow> string \<Rightarrow> json \<Rightarrow> error + s3" where
  "put_object s3_client key body =
     (case put_fault s3_client of
        Some code \<Rightarrow> Inl (ClientError code)
      | None \<Rightarrow> Inr (s3_client\<lparr>objects := (objects s3_client)(key \<mapsto> Json body)\<rparr>))"

definition get_s3_key :: "string \<Rightarrow> string" where
  "get_s3_key session_id = ''chat_histories/'' @ session_id @ ''.json''"

text \<open>
  \<^verbatim>\<open>if 'state' in data: return self._deserialize_messages(data['state'])\<close> for each shape
  \<^verbatim>\<open>json.loads\<close> can return: membership is by key on a dictionary, by element on a list,
  by substring on a string, and a \<^verbatim>\<open>TypeError\<close> on anything else; subscripting a list or
  a string with \<^verbatim>\<open>'state'\<close> is a \<^verbatim>\<open>TypeError\<close> too.
\<close>

definition unwrap_state :: "json \<Rightarrow> error + pyval" where
  "unwrap_state data =
     (case data of
        JObj kvs \<Rightarrow>
          (case map_of kvs ''state'' of
             Some st \<Rightarrow> deserialize_messages st
           | None \<Rightarrow> deserialize_messages data)
      | JArr xs \<Rightarrow> if JStr ''state'' \<in> set xs then Inl TypeError else deserialize_messages data
      | JStr s \<Rightarrow> if sublist ''state'' s then Inl TypeError else deserialize_messages data
      | _ \<Rightarrow> Inl TypeError)"

text \<open>
  \<^verbatim>\<open>S3MemorySaver.get\<close>. Python's \<^verbatim>\<open>None\<close> (no record) is \<open>PNone\<close>. Only a
  \<^verbatim>\<open>ClientError\<close> with code \<^verbatim>\<open>NoSuchKey\<close> is absorbed; every other exception leaves the method.
\<close>

definition saver_get :: "s3 \<Rightarrow> string \<Rightarrow> error + pyval" where
  "saver_get s3_client session_id =
     (case get_object s3_client (get_s3_key session_id) of
        Inl (ClientError code) \<Rightarrow>
          if code = ''NoSuchKey'' then Inr PNone else Inl (ClientError code)
      | Inl e \<Rightarrow> Inl e
      | Inr NotUtf8 \<Rightarrow> Inl UnicodeDecodeError
      | Inr NotJson \<Rightarrow> Inl JSONDecodeError
      | Inr (Json data) \<Rightarrow> unwrap_state data)"

text \<open>
  \<^verbatim>\<open>S3MemorySaver.put\<close>; \<open>last_updated\<close> is the text of \<^verbatim>\<open>datetime.now().isoformat()\<close>.
  \<^verbatim>\<open>metadata or {}\<close> and \<^verbatim>\<open>new_versions or {}\<close> turn \<^verbatim>\<open>None\<close> into an empty dictionary.
\<close>

definition saver_put ::
  "s3 \<Rightarrow> string \<Rightarrow> pyval \<Rightarrow> (string \<times> pyval) list option \<Rightarrow> (string \<times> pyval) list option
     \<Rightarrow> string \<Rightarrow> error + s3" where
  "saver_put s3_client session_id data metadata new_versions last_updated =
     (let save_data = PDict
            [(''state'', data),
             (''metadata'', PDict (case metadata of None \<Rightarrow> [] | Some m \<Rightarrow> m)),
             (''new_versions'', PDict (case new_versions of None \<Rightarrow> [] | Some v \<Rightarrow> v)),
             (''last_updated'', PStr last_updated)]
      in put_object s3_client (get_s3_key session_id) (dumps save_data))"

text \<open>\<^verbatim>\<open>ChatService._save_checkpoint\<close>; \<open>timestamp\<close> is its own reading of the clock.\<close>

definition save_checkpoint ::
  "s3 \<Rightarrow> string \<Rightarrow> base_message list \<Rightarrow> string \<Rightarrow> string \<Rightarrow> string \<Rightarrow> error + s3" where
  "save_checkpoint memory session_id messages language timestamp last_updated =
     saver_put memory session_id
       (PDict [(''messages'', PList (map PMsg messages)), (''language'', PStr language)])
       (Some [(''timestamp'', PStr timestamp), (''language'', PStr language)])
       (Some [(''messages'', PInt (int (length messages)))])
       last_updated"

section \<open>History reconstructor: \<^verbatim>\<open>ChatService.get_chat_history\<close>\<close>

text \<open>
  The transcript models of \<^verbatim>\<open>models/chat_history.py\<close>. The field \<open>m_content\<close> is the
  \<^verbatim>\<open>content\<close> of a \<^verbatim>\<open>Message\<close>; a \<^verbatim>\<open>datetime\<close> is a number of clock ticks.
\<close>

record Message =
  m_content :: string
  role :: string
  timestamp :: nat

record ChatHistoryResponse =
  thread_id :: string
  messages :: "Message list"
  language :: string

text \<open>Python truthiness, as \<^verbatim>\<open>if assistant_msg:\<close> tests it. A message object is truthy.\<close>

fun truthy :: "pyval \<Rightarrow> bool" where
  "truthy PNone = False"
| "truthy (PBool b) = b"
| "truthy (PInt i) = (i \<noteq> 0)"
| "truthy (PStr s) = (s \<noteq> [])"
| "truthy (PList xs) = (xs \<noteq> [])"
| "truthy (PDict kvs) = (kvs \<noteq> [])"
| "truthy (PMsg obj) = True"

text \<open>\<^verbatim>\<open>isinstance(human_msg, HumanMessage)\<close>\<close>

fun is_human :: "pyval \<Rightarrow> bool" where
  "is_human (PMsg obj) = (cls obj = HumanMessage)"
| "is_human v = False"

text \<open>\<^verbatim>\<open>obj.content\<close>: only message objects have the attribute.\<close>

fun content_of :: "pyval \<Rightarrow> error + string" where
  "content_of (PMsg obj) = Inr (content obj)"
| "content_of v = Inl AttributeError"

text \<open>
  The loop \<^verbatim>\<open>for i in range(0, len(msg_list), 2)\<close>, with the loop index \<open>i\<close>, the
  transcript built so far, and the clock: \<open>now k\<close> is what \<^verbatim>\<open>datetime.now()\<close> returns at
  its \<open>k\<close>-th call, and \<open>calls\<close> counts the calls made.
\<close>

function history_loop ::
  "pyval list \<Rightarrow> (nat \<Rightarrow> nat) \<Rightarrow> nat \<Rightarrow> nat \<Rightarrow> Message list \<Rightarrow> error + Message list" where
  "history_loop msg_list now i calls transcript =
     (if i < length msg_list then
        let human_msg = msg_list ! i in
        if \<not> is_human human_msg then history_loop msg_list now (i + 2) calls transcript
        else
          let assistant_msg = (if i + 1 < length msg_list then msg_list ! (i + 1) else PNone);
              current_time = now calls
          in (case content_of human_msg of
                Inl e \<Rightarrow> Inl e
              | Inr hc \<Rightarrow>
                  let transcript = transcript @
                        [\<lparr>m_content = hc, role = ''human'', timestamp = current_time\<rparr>]
                  in if truthy assistant_msg then
                       (case content_of assistant_msg of
                          Inl e \<Rightarrow> Inl e
                        | Inr ac \<Rightarrow>
                            history_loop msg_list now (i + 2) (calls + 1)
                              (transcript @
                                 [\<lparr>m_content = ac, role = ''assistant'',
                                   timestamp = current_time\<rparr>]))
                     else history_loop msg_list now (i + 2) (calls + 1) transcript)
      else Inr transcript)"
  by pat_completeness auto
termination
  by (relation "measure (\<lambda>(msg_list, now, i, calls, transcript). length msg_list - i)") auto

declare history_loop.simps [simp del]

text \<open>
  \<^verbatim>\<open>msg_list = checkpoint["messages"]\<close> need not be a list: \<^verbatim>\<open>len\<close> fails on a value
  without a length, the items of a string are strings (never a \<^verbatim>\<open>HumanMessage\<close>), and
  a non-empty dictionary has no key \<^verbatim>\<open>0\<close>.
\<close>

definition reconstruct :: "pyval \<Rightarrow> (nat \<Rightarrow> nat) \<Rightarrow> error + Message list" where
  "reconstruct msg_list now =
     (case msg_list of
        PList xs \<Rightarrow> history_loop xs now 0 0 []
      | PStr s \<Rightarrow> Inr []
      | PDict kvs \<Rightarrow> if kvs = [] then Inr [] else Inl (KeyError ''0'')
      | _ \<Rightarrow> Inl TypeError)"

text \<open>
  \<^verbatim>\<open>checkpoint.get("metadata", {}).get("language", "English")\<close>, and the validation of
  \<^verbatim>\<open>language: str\<close> by the response model.
\<close>

definition checkpoint_language :: "(string \<times> pyval) list \<Rightarrow> error + string" where
  "checkpoint_language checkpoint =
     (case map_of checkpoint ''metadata'' of
        None \<Rightarrow> Inr ''English''
      | Some (PDict metadata) \<Rightarrow>
          (case map_of metadata ''language'' of
             None \<Rightarrow> Inr ''English''
           | Some (PStr l) \<Rightarrow> Inr l
           | Some _ \<Rightarrow> Inl ValidationError)
      | Some _ \<Rightarrow> Inl AttributeError)"

text \<open>
  \<^verbatim>\<open>ChatService.get_chat_history\<close>. The handler \<^verbatim>\<open>except Exception\<close> logs the error and
  raises it again.
\<close>

definition get_chat_history :: "s3 \<Rightarrow> (nat \<Rightarrow> nat) \<Rightarrow> string \<Rightarrow> error + ChatHistoryResponse" where
  "get_chat_history memory now tid =
     (case saver_get memory tid of
        Inl e \<Rightarrow> Inl e
      | Inr (PDict checkpoint) \<Rightarrow>
          (case map_of checkpoint ''messages'' of
             None \<Rightarrow> Inr \<lparr>thread_id = tid, messages = [], language = ''English''\<rparr>
           | Some msg_list \<Rightarrow>
               (case reconstruct msg_list now of
                  Inl e \<Rightarrow> Inl e
                | Inr transcript \<Rightarrow>
                    (case checkpoint_language checkpoint of
                       Inl e \<Rightarrow> Inl e
                     | Inr l \<Rightarrow>
                         Inr \<lparr>thread_id = tid, messages = transcript, language = l\<rparr>)))
      | Inr _ \<Rightarrow> Inr \<lparr>thread_id = tid, messages = [], language = ''English''\<rparr>)"

text \<open>
  The route \<^verbatim>\<open>GET /chat/history/{thread_id}\<close> of \<^verbatim>\<open>main.py\<close>: an empty transcript is
  a 404, any exception of the service a 500 whose detail is the text of the exception.
\<close>

datatype detail = NoHistory string | ErrorText error

datatype http_result = Response ChatHistoryResponse | HTTPException nat detail

definition main_get_chat_history :: "s3 \<Rightarrow> (nat \<Rightarrow> nat) \<Rightarrow> string \<Rightarrow> http_result" where
  "main_get_chat_history memory now tid =
     (case get_chat_history memory now tid of
        Inr response \<Rightarrow>
          if messages response = [] then HTTPException 404 (NoHistory tid)
          else Response response
      | Inl e \<Rightarrow> HTTPException 500 (ErrorText e))"

text \<open>\<^verbatim>\<open>len(v)\<close> succeeds on strings, lists and dictionaries only.\<close>

fun has_len :: "pyval \<Rightarrow> bool" where
  "has_len (PStr s) = True"
| "has_len (PList xs) = True"
| "has_len (PDict kvs) = True"
| "has_len v = False"

text \<open>
  \<^verbatim>\<open>ChatService.get_or_create_chat_history\<close>, the session cache: on a miss it asks the
  store, and here any exception inside the \<^verbatim>\<open>try\<close> is logged and replaced by an empty
  history: an exception of the store, and the \<^verbatim>\<open>TypeError\<close> of \<^verbatim>\<open>len(...)\<close> in the log
  line when the stored \<^verbatim>\<open>"messages"\<close> value has no length. The result is the history and
  the cache after the call.
\<close>

definition get_or_create_chat_history ::
  "s3 \<Rightarrow> (string \<rightharpoonup> pyval) \<Rightarrow> string \<Rightarrow> pyval \<times> (string \<rightharpoonup> pyval)" where
  "get_or_create_chat_history memory chat_histories session_id =
     (case chat_histories session_id of
        Some history \<Rightarrow> (history, chat_histories)
      | None \<Rightarrow>
          let history =
            (case saver_get memory session_id of
               Inl e \<Rightarrow> PList []
             | Inr (PDict checkpoint) \<Rightarrow>
                 (case map_of checkpoint ''messages'' of
                    Some msgs \<Rightarrow> if has_len msgs then msgs else PList []
                  | None \<Rightarrow> PList [])
             | Inr _ \<Rightarrow> PList [])
          in (history, chat_histories(session_id \<mapsto> history)))"

subsection \<open>The reconstruction as the specification words it\<close>

text \<open>
  The stored list taken two entries at a time: a stride whose first entry is not a human
  message is skipped; otherwise the first entry is the human message and the second, when
  there is one, its assistant message, both stamped with the same reading of the clock
  (the \<open>k\<close>-th one, \<open>k\<close> counting the strides stamped before).
\<close>

fun is_message :: "pyval \<Rightarrow> bool" where
  "is_message (PMsg obj) = True"
| "is_message v = False"

fun text_of :: "pyval \<Rightarrow> string" where
  "text_of (PMsg obj) = content obj"
| "text_of v = []"

fun stride_transcript :: "(nat \<Rightarrow> nat) \<Rightarrow> nat \<Rightarrow> pyval list \<Rightarrow> Message list" where
  "stride_transcript now k [] = []"
| "stride_transcript now k [h] =
     (if is_human h then [\<lparr>m_content = text_of h, role = ''human'', timestamp = now k\<rparr>]
      else [])"
| "stride_transcript now k (h # a # rest) =
     (if is_human h then
        \<lparr>m_content = text_of h, role = ''human'', timestamp = now k\<rparr> #
        \<lparr>m_content = text_of a, role = ''assistant'', timestamp = now k\<rparr> #
        stride_transcript now (k + 1) rest
      else stride_transcript now k rest)"

section \<open>Properties of the rule matcher\<close>

lemma related_None:
  "\<forall>(topic, keywords) \<in> set topics. \<not> keyword_hit m keywords \<Longrightarrow> related qa m topics = None"
  by (induction topics) auto

lemma related_first:
  assumes "i < length topics"
    and "keyword_hit m (snd (topics ! i))"
    and "find (relevant (fst (topics ! i))) qa = Some p"
    and "\<forall>j < i. \<not> (keyword_hit m (snd (topics ! j)) \<and>
                    (\<exists>q \<in> set qa. relevant (fst (topics ! j)) q))"
  shows "related qa m topics = Some p"
  using assms
proof (induction topics arbitrary: i)
  case Nil
  then show ?case by simp
next
  case (Cons t ts)
  obtain topic kws where t: "t = (topic, kws)" by (cases t)
  show ?case
  proof (cases i)
    case 0
    with Cons.prems t show ?thesis by simp
  next
    case (Suc k)
    from Cons.prems(4) Suc have h0: "\<not> (keyword_hit m kws \<and> (\<exists>q \<in> set qa. relevant topic q))"
      using t by fastforce
    have "related qa m ts = Some p"
    proof (rule Cons.IH[of k])
      show "k < length ts" using Cons.prems(1) Suc by simp
      show "keyword_hit m (snd (ts ! k))" using Cons.prems(2) Suc by simp
      show "find (relevant (fst (ts ! k))) qa = Some p" using Cons.prems(3) Suc by simp
      show "\<forall>j<k. \<not> (keyword_hit m (snd (ts ! j)) \<and> (\<exists>q\<in>set qa. relevant (fst (ts ! j)) q))"
      proof (intro allI impI)
        fix j assume "j < k"
        then have "Suc j < i" using Suc by simp
        with Cons.prems(4)
        show "\<not> (keyword_hit m (snd (ts ! j)) \<and> (\<exists>q\<in>set qa. relevant (fst (ts ! j)) q))"
          by fastforce
      qed
    qed
    moreover have "keyword_hit m kws \<Longrightarrow> find (relevant topic) qa = None"
      using h0 by (auto simp: find_None_iff)
    ultimately show ?thesis using t by (auto split: option.splits)
  qed
qed

text \<open>
  Claim C3. When the case-folded last message contains the case-folded question of some
  pair of the table, the matcher appends an \<^verbatim>\<open>AIMessage\<close> whose content is the answer
  text of the first such pair in table order (index \<open>i\<close>: it matches and no earlier pair
  does). Nothing is assumed about the keyword
  table, so the exact match goes before any keyword match.
\<close>

theorem call_model_exact_match:
  assumes "msgs \<noteq> []"
    and "pair \<in> set qa_pairs"
    and "exact_match (last_text msgs) pair"
  shows "\<exists>i < length qa_pairs.
           exact_match (last_text msgs) (qa_pairs ! i) \<and>
           (\<forall>j < i. \<not> exact_match (last_text msgs) (qa_pairs ! j)) \<and>
           call_model qa_pairs msgs = Inr (msgs @ [\<lparr>cls = AIMessage, content = answer (qa_pairs ! i), additional_kwargs = []\<rparr>])"
proof -
  let ?m = "last_text msgs"
  from assms(2,3) obtain p where p: "find (exact_match ?m) qa_pairs = Some p"
    by (cases "find (exact_match ?m) qa_pairs") (auto simp: find_None_iff)
  then obtain i where i: "i < length qa_pairs" "exact_match ?m (qa_pairs ! i)"
      "p = qa_pairs ! i" "\<forall>j < i. \<not> exact_match ?m (qa_pairs ! j)"
    unfolding find_Some_iff by blast
  from assms(1) p have "call_model qa_pairs msgs = Inr (msgs @ [\<lparr>cls = AIMessage, content = answer p, additional_kwargs = []\<rparr>])"
    by (simp add: call_model_def ai_message_def)
  with i show ?thesis by blast
qed

text \<open>
  An instance: the message contains the second question of the table and also the keyword
  \<open>time\<close> of the topic \<open>business hours\<close>, for which the table has a pair; the reply is the
  answer of the exactly matched pair.
\<close>

theorem call_model_exact_match_witness:
  "[human_message ''How do I reset my password? What time is it''] \<noteq> [] \<and>
   \<lparr>question = ''How do I reset my password?'', answer = ''Use the reset link''\<rparr>
     \<in> set [\<lparr>question = ''What are your business hours?'', answer = ''9 to 5''\<rparr>,
            \<lparr>question = ''How do I reset my password?'', answer = ''Use the reset link''\<rparr>] \<and>
   exact_match (last_text [human_message ''How do I reset my password? What time is it''])
     \<lparr>question = ''How do I reset my password?'', answer = ''Use the reset link''\<rparr> \<and>
   keyword_hit (last_text [human_message ''How do I reset my password? What time is it''])
     (snd (topic_keywords ! 0)) \<and>
   relevant (fst (topic_keywords ! 0))
     \<lparr>question = ''What are your business hours?'', answer = ''9 to 5''\<rparr> \<and>
   call_model
     [\<lparr>question = ''What are your business hours?'', answer = ''9 to 5''\<rparr>,
      \<lparr>question = ''How do I reset my password?'', answer = ''Use the reset link''\<rparr>]
     [human_message ''How do I reset my password? What time is it'']
   = Inr [human_message ''How do I reset my password? What time is it'',
          \<lparr>cls = AIMessage, content = ''Use the reset link'', additional_kwargs = []\<rparr>]"
proof -
  let ?p1 = "\<lparr>question = ''What are your business hours?'', answer = ''9 to 5''\<rparr>"
  let ?p2 = "\<lparr>question = ''How do I reset my password?'', answer = ''Use the reset link''\<rparr>"
  let ?ms = "[human_message ''How do I reset my password? What time is it'']"
  have h1: "?ms \<noteq> []" by simp
  have h2: "?p2 \<in> set [?p1, ?p2]" by simp
  have h3: "exact_match (last_text ?ms) ?p2" by code_simp
  have n1: "\<not> exact_match (last_text ?ms) ?p1" by code_simp
  have k1: "keyword_hit (last_text ?ms) (snd (topic_keywords ! 0))" by code_simp
  have k2: "relevant (fst (topic_keywords ! 0)) ?p1" by code_simp
  from call_model_exact_match[OF h1 h2 h3] obtain i where
    i: "i < length [?p1, ?p2]" "exact_match (last_text ?ms) ([?p1, ?p2] ! i)"
       "call_model [?p1, ?p2] ?ms = Inr (?ms @ [\<lparr>cls = AIMessage, content = answer ([?p1, ?p2] ! i), additional_kwargs = []\<rparr>])"
    by blast
  from i(1,2) n1 have "i = 1" by (cases i) auto
  with i(3) have "call_model [?p1, ?p2] ?ms = Inr (?ms @ [\<lparr>cls = AIMessage, content = ''Use the reset link'', additional_kwargs = []\<rparr>])"
    by simp
  with h1 h2 h3 k1 k2 show ?thesis by simp
qed

text \<open>
  Claim C4, as stated, fails: with a table that has no pair for \<open>business hours\<close>, the
  message below has no exact match and hits the keyword \<open>time\<close> of that topic, yet the
  reply is the refusal and not the answer of a pair.
\<close>

theorem call_model_keyword_counterexample:
  "find (exact_match (last_text [human_message ''What time is it'']))
     [\<lparr>question = ''What is your refund policy?'', answer = ''30 days''\<rparr>] = None \<and>
   topic_keywords ! 0 =
     (''business hours'',
      [''hour'', ''open'', ''close'', ''time'', ''operating'', ''when do you'']) \<and>
   keyword_hit (last_text [human_message ''What time is it'']) (snd (topic_keywords ! 0)) \<and>
   find (relevant ''business hours'')
     [\<lparr>question = ''What is your refund policy?'', answer = ''30 days''\<rparr>] = None \<and>
   call_model [\<lparr>question = ''What is your refund policy?'', answer = ''30 days''\<rparr>]
     [human_message ''What time is it'']
   = Inr [human_message ''What time is it'',
          \<lparr>cls = AIMessage, content = ''I can only answer questions about our business operations.'', additional_kwargs = []\<rparr>]"
  by code_simp

text \<open>
  Claim C4, amended. With no exact match, let topic \<open>i\<close> be the first topic in declared
  order one of whose keywords occurs between spaces in the padded message and for which
  the table has a pair whose case-folded question contains the topic label (earlier
  topics lack a keyword hit or lack such a pair). Then the matcher appends an
  \<^verbatim>\<open>AIMessage\<close> whose content is the answer text of the first pair in table order whose
  case-folded question contains that label.
\<close>

theorem call_model_keyword_match:
  assumes "msgs \<noteq> []"
    and "\<forall>pair \<in> set qa_pairs. \<not> exact_match (last_text msgs) pair"
    and "i < length topic_keywords"
    and "keyword_hit (last_text msgs) (snd (topic_keywords ! i))"
    and "q \<in> set qa_pairs"
    and "relevant (fst (topic_keywords ! i)) q"
    and "\<forall>j < i. \<not> (keyword_hit (last_text msgs) (snd (topic_keywords ! j)) \<and>
                    (\<exists>p \<in> set qa_pairs. relevant (fst (topic_keywords ! j)) p))"
  shows "\<exists>k < length qa_pairs.
           relevant (fst (topic_keywords ! i)) (qa_pairs ! k) \<and>
           (\<forall>l < k. \<not> relevant (fst (topic_keywords ! i)) (qa_pairs ! l)) \<and>
           call_model qa_pairs msgs = Inr (msgs @ [\<lparr>cls = AIMessage, content = answer (qa_pairs ! k), additional_kwargs = []\<rparr>])"
proof -
  let ?m = "last_text msgs"
  let ?t = "fst (topic_keywords ! i)"
  have none: "find (exact_match ?m) qa_pairs = None"
    using assms(2) by (simp add: find_None_iff)
  from assms(5,6) obtain p where p: "find (relevant ?t) qa_pairs = Some p"
    by (cases "find (relevant ?t) qa_pairs") (auto simp: find_None_iff)
  then obtain k where k: "k < length qa_pairs" "relevant ?t (qa_pairs ! k)"
      "p = qa_pairs ! k" "\<forall>l < k. \<not> relevant ?t (qa_pairs ! l)"
    unfolding find_Some_iff by blast
  have "related qa_pairs ?m topic_keywords = Some p"
    using assms(3,4) p assms(7) by (rule related_first)
  with none assms(1) have "call_model qa_pairs msgs = Inr (msgs @ [\<lparr>cls = AIMessage, content = answer p, additional_kwargs = []\<rparr>])"
    by (simp add: call_model_def ai_message_def)
  with k show ?thesis by blast
qed

text \<open>
  An instance: the keyword \<open>time\<close> of the first topic occurs, but the table has no pair
  for it; the fifth topic, \<open>refund policy\<close>, has a keyword hit and a pair.
\<close>

theorem call_model_keyword_match_witness:
  "[human_message ''What time can I get a refund''] \<noteq> [] \<and>
   find (exact_match (last_text [human_message ''What time can I get a refund'']))
     [\<lparr>question = ''What is your Refund Policy?'', answer = ''30 days''\<rparr>] = None \<and>
   (4::nat) < length topic_keywords \<and>
   keyword_hit (last_text [human_message ''What time can I get a refund''])
     (snd (topic_keywords ! 4)) \<and>
   relevant (fst (topic_keywords ! 4))
     \<lparr>question = ''What is your Refund Policy?'', answer = ''30 days''\<rparr> \<and>
   keyword_hit (last_text [human_message ''What time can I get a refund''])
     (snd (topic_keywords ! 0)) \<and>
   call_model [\<lparr>question = ''What is your Refund Policy?'', answer = ''30 days''\<rparr>]
     [human_message ''What time can I get a refund'']
   = Inr [human_message ''What time can I get a refund'', \<lparr>cls = AIMessage, content = ''30 days'', additional_kwargs = []\<rparr>]"
proof -
  let ?q = "\<lparr>question = ''What is your Refund Policy?'', answer = ''30 days''\<rparr>"
  let ?ms = "[human_message ''What time can I get a refund'']"
  have h1: "?ms \<noteq> []" by simp
  have f: "find (exact_match (last_text ?ms)) [?q] = None" by code_simp
  then have h2: "\<forall>pair \<in> set [?q]. \<not> exact_match (last_text ?ms) pair"
    by (simp only: find_None_iff) blast
  have h3: "(4::nat) < length topic_keywords" by code_simp
  have h4: "keyword_hit (last_text ?ms) (snd (topic_keywords ! 4))" by code_simp
  have h5: "?q \<in> set [?q]" by simp
  have h6: "relevant (fst (topic_keywords ! 4)) ?q" by code_simp
  have k0: "keyword_hit (last_text ?ms) (snd (topic_keywords ! 0))" by code_simp
  have r0: "\<not> relevant (fst (topic_keywords ! 0)) ?q" by code_simp
  have k1: "\<not> keyword_hit (last_text ?ms) (snd (topic_keywords ! 1))" by code_simp
  have k2: "\<not> keyword_hit (last_text ?ms) (snd (topic_keywords ! 2))" by code_simp
  have k3: "\<not> keyword_hit (last_text ?ms) (snd (topic_keywords ! 3))" by code_simp
  have h7: "\<forall>j < 4. \<not> (keyword_hit (last_text ?ms) (snd (topic_keywords ! j)) \<and>
                    (\<exists>p \<in> set [?q]. relevant (fst (topic_keywords ! j)) p))"
  proof (intro allI impI)
    fix j :: nat assume "j < 4"
    then consider "j = 0" | "j = 1" | "j = 2" | "j = 3" by linarith
    then show "\<not> (keyword_hit (last_text ?ms) (snd (topic_keywords ! j)) \<and>
                    (\<exists>p \<in> set [?q]. relevant (fst (topic_keywords ! j)) p))"
      using r0 k1 k2 k3 by cases auto
  qed
  from call_model_keyword_match[OF h1 h2 h3 h4 h5 h6 h7] obtain k where
    k: "k < length [?q]" "call_model [?q] ?ms = Inr (?ms @ [\<lparr>cls = AIMessage, content = answer ([?q] ! k), additional_kwargs = []\<rparr>])"
    by blast
  from k(1) have "k = 0" by simp
  with k(2) have "call_model [?q] ?ms =
      Inr [human_message ''What time can I get a refund'', \<lparr>cls = AIMessage, content = ''30 days'', additional_kwargs = []\<rparr>]"
    by simp
  with h1 f h3 h4 h6 k0 show ?thesis by simp
qed

text \<open>
  Claim C7. A message with no exact match and with no keyword of any topic between spaces
  gets as reply an \<^verbatim>\<open>AIMessage\<close> whose content is exactly the refusal text.
\<close>

theorem call_model_fallback:
  assumes "msgs \<noteq> []"
    and "\<forall>pair \<in> set qa_pairs. \<not> exact_match (last_text msgs) pair"
    and "\<forall>(topic, keywords) \<in> set topic_keywords.
           \<not> keyword_hit (last_text msgs) keywords"
  shows "call_model qa_pairs msgs =
           Inr (msgs @
                [\<lparr>cls = AIMessage, content = ''I can only answer questions about our business operations.'', additional_kwargs = []\<rparr>])"
proof -
  have "find (exact_match (last_text msgs)) qa_pairs = None"
    using assms(2) by (simp add: find_None_iff)
  moreover have "related qa_pairs (last_text msgs) topic_keywords = None"
    using assms(3) by (rule related_None)
  ultimately show ?thesis using assms(1) by (simp add: call_model_def refusal_def ai_message_def)
qed

theorem call_model_fallback_witness:
  "[human_message ''Tell me a joke''] \<noteq> [] \<and>
   find (exact_match (last_text [human_message ''Tell me a joke'']))
     [\<lparr>question = ''What are your business hours?'', answer = ''9 to 5''\<rparr>] = None \<and>
   \<not> list_ex (keyword_hit (last_text [human_message ''Tell me a joke'']))
     (map snd topic_keywords) \<and>
   call_model [\<lparr>question = ''What are your business hours?'', answer = ''9 to 5''\<rparr>]
     [human_message ''Tell me a joke'']
   = Inr [human_message ''Tell me a joke'',
          \<lparr>cls = AIMessage, content = ''I can only answer questions about our business operations.'', additional_kwargs = []\<rparr>]"
proof -
  let ?qa = "[\<lparr>question = ''What are your business hours?'', answer = ''9 to 5''\<rparr>]"
  let ?ms = "[human_message ''Tell me a joke'']"
  have h1: "?ms \<noteq> []" by simp
  have f: "find (exact_match (last_text ?ms)) ?qa = None" by code_simp
  then have h2: "\<forall>pair \<in> set ?qa. \<not> exact_match (last_text ?ms) pair"
    by (simp only: find_None_iff) blast
  have k: "\<not> list_ex (keyword_hit (last_text ?ms)) (map snd topic_keywords)" by code_simp
  then have h3: "\<forall>(topic, keywords) \<in> set topic_keywords.
                   \<not> keyword_hit (last_text ?ms) keywords"
    by (force simp: list_ex_iff)
  from call_model_fallback[OF h1 h2 h3]
  have "call_model ?qa ?ms = Inr [human_message ''Tell me a joke'',
          \<lparr>cls = AIMessage, content = ''I can only answer questions about our business operations.'', additional_kwargs = []\<rparr>]"
    by simp
  with h1 f k show ?thesis by simp
qed

text \<open>
  Claim C9. On a non-empty message list the matcher returns the input list with one
  message appended: the result is one longer, every earlier position holds the message it
  held, and the new last message is an \<^verbatim>\<open>AIMessage\<close>.
\<close>

theorem call_model_appends_one:
  assumes "msgs \<noteq> []"
  shows "\<exists>reply. call_model qa_pairs msgs = Inr (msgs @ [reply]) \<and>
           cls reply = AIMessage \<and>
           length (msgs @ [reply]) = Suc (length msgs) \<and>
           (\<forall>i < length msgs. (msgs @ [reply]) ! i = msgs ! i)"
proof -
  from assms have "\<exists>a. call_model qa_pairs msgs = Inr (msgs @ [ai_message a])"
    by (auto simp: call_model_def Let_def split: option.splits)
  then obtain a where "call_model qa_pairs msgs = Inr (msgs @ [ai_message a])" ..
  moreover have "cls (ai_message a) = AIMessage" by (simp add: ai_message_def)
  ultimately show ?thesis by (auto simp: nth_append)
qed

theorem call_model_appends_one_witness:
  "[human_message ''Hello'', ai_message ''Hi'', human_message ''Tell me a joke''] \<noteq> [] \<and>
   call_model [\<lparr>question = ''What are your business hours?'', answer = ''9 to 5''\<rparr>]
     [human_message ''Hello'', ai_message ''Hi'', human_message ''Tell me a joke'']
   = Inr [human_message ''Hello'', ai_message ''Hi'', human_message ''Tell me a joke'',
          ai_message ''I can only answer questions about our business operations.'']"
proof -
  let ?qa = "[\<lparr>question = ''What are your business hours?'', answer = ''9 to 5''\<rparr>]"
  let ?ms = "[human_message ''Hello'', ai_message ''Hi'', human_message ''Tell me a joke'']"
  have h: "?ms \<noteq> []" by simp
  have e: "call_model ?qa ?ms = Inr (?ms @
            [ai_message ''I can only answer questions about our business operations.''])"
    by code_simp
  from call_model_appends_one[OF h, of ?qa] obtain reply where
    "call_model ?qa ?ms = Inr (?ms @ [reply])" by blast
  with e h show ?thesis by simp
qed

section \<open>Properties of the response formatter\<close>

lemma is_space_nl: "is_space (CHR 0x0A)"
  by (simp add: is_space_def)

lemma dropWhile_keeps: "s \<noteq> [] \<Longrightarrow> \<not> P (hd s) \<Longrightarrow> dropWhile P s = s"
  by (cases s) auto

lemma last_dropWhile_keep: "dropWhile P xs \<noteq> [] \<Longrightarrow> last (dropWhile P xs) = last xs"
  by (induction xs) (auto split: if_splits)

lemma strip_fixed:
  assumes "s = [] \<or> (\<not> is_space (hd s) \<and> \<not> is_space (last s))"
  shows "strip s = s"
proof (cases "s = []")
  case True
  then show ?thesis by (simp add: strip_def)
next
  case False
  with assms have a: "\<not> is_space (hd s)" and b: "\<not> is_space (last s)" by auto
  from False a have "dropWhile is_space s = s" by (rule dropWhile_keeps)
  moreover have "dropWhile is_space (rev s) = rev s"
    using False b by (intro dropWhile_keeps) (auto simp: hd_rev)
  ultimately show ?thesis by (simp add: strip_def)
qed

lemma strip_ends:
  assumes "strip s \<noteq> []"
  shows "\<not> is_space (hd (strip s)) \<and> \<not> is_space (last (strip s))"
proof -
  define t where "t = dropWhile is_space s"
  define u where "u = dropWhile is_space (rev t)"
  have s: "strip s = rev u" by (simp add: strip_def t_def u_def)
  with assms have u: "u \<noteq> []" by simp
  then have t: "t \<noteq> []" by (auto simp: u_def)
  have "\<not> is_space (hd u)" using u unfolding u_def by (rule hd_dropWhile)
  then have 1: "\<not> is_space (last (rev u))" using u by (simp add: last_rev)
  have "last u = last (rev t)" using u unfolding u_def by (rule last_dropWhile_keep)
  then have "last u = hd t" using t by (simp add: last_rev)
  moreover have "\<not> is_space (hd t)" using t unfolding t_def by (rule hd_dropWhile)
  ultimately have 2: "\<not> is_space (hd (rev u))" using u by (simp add: hd_rev)
  from 1 2 s show ?thesis by simp
qed

lemma strip_sublist: "sublist (strip s) s"
proof -
  define t where "t = dropWhile is_space s"
  have "suffix (dropWhile is_space (rev t)) (rev t)" by (rule suffix_dropWhile)
  then have "prefix (strip s) t"
    by (simp add: suffix_to_prefix strip_def t_def)
  moreover have "suffix t s" unfolding t_def by (rule suffix_dropWhile)
  ultimately show ?thesis
    by (meson prefix_imp_sublist suffix_imp_sublist sublist_order.order_trans)
qed

lemma split_hd_prefix: "split sep s \<noteq> [] \<and> prefix (hd (split sep s)) s"
  by (induction sep s rule: split.induct) (auto split: list.splits)

lemma split_pieces_free:
  assumes "sep \<noteq> []"
  shows "p \<in> set (split sep s) \<Longrightarrow> \<not> sublist sep p"
  using assms
proof (induction sep s arbitrary: p rule: split.induct)
  case (1 sep)
  then show ?case by simp
next
  case (2 sep c cs)
  show ?case
  proof (cases "prefix sep (c # cs)")
    case True
    with 2 show ?thesis by auto
  next
    case False
    obtain q qs where q: "split sep cs = q # qs"
      using split_hd_prefix[of sep cs] by (cases "split sep cs") auto
    have pq: "prefix q cs" using split_hd_prefix[of sep cs] q by simp
    from False q "2.prems" have "p = c # q \<or> p \<in> set qs" by auto
    then show ?thesis
    proof
      assume p: "p = c # q"
      have "\<not> sublist sep q" using "2.IH"(2)[of q] False q "2.prems" by simp
      moreover have "\<not> prefix sep (c # q)"
      proof
        assume "prefix sep (c # q)"
        moreover have "prefix (c # q) (c # cs)" using pq by simp
        ultimately have "prefix sep (c # cs)" by (rule prefix_order.order_trans)
        with False show False by simp
      qed
      ultimately show ?thesis using p by (simp add: sublist_Cons_right)
    next
      assume "p \<in> set qs"
      then show ?thesis using "2.IH"(2)[of p] False q "2.prems" by simp
    qed
  qed
qed

lemma split_whole: "\<not> sublist sep p \<Longrightarrow> split sep p = [p]"
proof (induction p)
  case Nil
  then show ?case by simp
next
  case (Cons c cs)
  then have "\<not> prefix sep (c # cs)" and "\<not> sublist sep cs"
    by (auto simp: sublist_Cons_right)
  with Cons.IH show ?case by simp
qed

lemma split_first:
  assumes "\<not> sublist nn p" and "p = [] \<or> last p \<noteq> CHR 0x0A"
  shows "split nn (p @ nn @ rest) = p # split nn rest"
  using assms
proof (induction p)
  case Nil
  then show ?case by (simp add: nn_def)
next
  case (Cons c cs)
  from Cons.prems(1) have ns: "\<not> sublist nn cs" and np: "\<not> prefix nn (c # cs)"
    by (auto simp: sublist_Cons_right)
  have l: "cs = [] \<or> last cs \<noteq> CHR 0x0A" using Cons.prems(2) by (auto split: if_splits)
  have "\<not> prefix nn (c # cs @ nn @ rest)"
  proof (cases cs)
    case Nil
    with Cons.prems(2) show ?thesis by (simp add: nn_def)
  next
    case (Cons d ds)
    with np show ?thesis by (simp add: nn_def)
  qed
  moreover have "split nn (cs @ nn @ rest) = cs # split nn rest"
    using ns l by (rule Cons.IH)
  ultimately show ?case by simp
qed

lemma join_ends:
  "ps \<noteq> [] \<Longrightarrow> \<forall>p \<in> set ps. clean_paragraph p \<Longrightarrow>
     join nn ps \<noteq> [] \<and> hd (join nn ps) = hd (hd ps) \<and> last (join nn ps) = last (last ps)"
  by (induction ps rule: induct_list012) (auto simp: clean_paragraph_def)

lemma split_join:
  "ps \<noteq> [] \<Longrightarrow> \<forall>p \<in> set ps. clean_paragraph p \<Longrightarrow> split nn (join nn ps) = ps"
proof (induction ps rule: induct_list012)
  case 1
  then show ?case by simp
next
  case (2 p)
  then show ?case by (simp add: clean_paragraph_def split_whole)
next
  case (3 p q ps)
  have "clean_paragraph p" using "3.prems" by simp
  then have "\<not> sublist nn p" and "last p \<noteq> CHR 0x0A"
    using is_space_nl by (auto simp: clean_paragraph_def)
  then have "split nn (p @ nn @ join nn (q # ps)) = p # split nn (join nn (q # ps))"
    by (intro split_first) auto
  moreover have "split nn (join nn (q # ps)) = q # ps"
    using "3.prems" by (intro "3.IH"(2)) auto
  ultimately show ?case by simp
qed

lemma format_join:
  assumes "\<forall>p \<in> set ps. clean_paragraph p"
  shows "format_response (join nn ps) = join nn ps"
proof (cases "ps = []")
  case True
  then show ?thesis by (simp add: format_response_def paragraphs_of_def strip_def)
next
  case False
  have g: "\<And>p. p \<in> set ps \<Longrightarrow> strip p = p \<and> p \<noteq> []"
    using assms by (auto simp: clean_paragraph_def intro: strip_fixed)
  have e: "join nn ps \<noteq> []" "hd (join nn ps) = hd (hd ps)" "last (join nn ps) = last (last ps)"
    using join_ends[OF False assms] by auto
  have "clean_paragraph (hd ps)" "clean_paragraph (last ps)" using False assms by auto
  then have "strip (join nn ps) = join nn ps"
    using e by (intro strip_fixed) (auto simp: clean_paragraph_def)
  moreover have "split nn (join nn ps) = ps" using False assms by (rule split_join)
  moreover have "filter (\<lambda>p. strip p \<noteq> []) ps = ps" using g by (simp add: filter_id_conv)
  moreover have "map strip ps = ps" using g by (simp add: map_idI)
  ultimately show ?thesis by (simp add: format_response_def paragraphs_of_def)
qed

lemma paragraphs_good: "p \<in> set (paragraphs_of text) \<Longrightarrow> clean_paragraph p"
proof -
  assume "p \<in> set (paragraphs_of text)"
  then obtain q where q: "q \<in> set (split nn (strip text))" "strip q \<noteq> []" "p = strip q"
    by (auto simp: paragraphs_of_def)
  have "\<not> sublist nn q" using q(1) by (intro split_pieces_free[of nn]) (auto simp: nn_def)
  then have "\<not> sublist nn (strip q)"
    using strip_sublist[of q] by (meson sublist_order.order_trans)
  with strip_ends[OF q(2)] q(2,3) show ?thesis by (simp add: clean_paragraph_def)
qed



lemma split_empty_piece: "sublist (nn @ nn) s \<Longrightarrow> [] \<in> set (split nn s)"
proof (induction s rule: length_induct)
  case (1 s)
  from "1.prems" obtain c cs where s: "s = c # cs" by (cases s) (auto simp: nn_def)
  show ?case
  proof (cases "prefix nn s")
    case True
    moreover have "nn \<noteq> []" by (simp add: nn_def)
    ultimately show ?thesis using s by simp
  next
    case False
    then have "\<not> prefix (nn @ nn) s" by (auto simp: prefix_def)
    with "1.prems" s have sub: "sublist (nn @ nn) cs" by (simp add: sublist_Cons_right)
    with "1.IH" s have e: "[] \<in> set (split nn cs)" by simp
    obtain q qs where q: "split nn cs = q # qs"
      using split_hd_prefix[of nn cs] by (cases "split nn cs") auto
    with False s have res: "split nn s = (c # q) # qs" by simp
    show ?thesis
    proof (cases "[] \<in> set qs")
      case True
      with res show ?thesis by simp
    next
      case nqs: False
      with e q have qe: "q = []" by auto
      from sub obtain d ds where cs: "cs = d # ds" by (cases cs) (auto simp: nn_def)
      have "prefix nn cs"
      proof (rule ccontr)
        assume "\<not> prefix nn cs"
        with cs q qe show False by (auto split: list.splits)
      qed
      then obtain rest where rest: "cs = nn @ rest" by (auto simp: prefix_def)
      with q have qs: "qs = split nn rest" by (simp add: nn_def)
      have aux: "prefix [x, x, x] r \<Longrightarrow> prefix [x, x] r" for x :: char and r
        by (auto simp: prefix_def)
      from sub rest have "prefix nn rest \<or> sublist (nn @ nn) rest"
        by (auto simp: nn_def sublist_Cons_right dest: aux)
      then have "[] \<in> set (split nn rest)"
      proof
        assume "prefix nn rest"
        then show ?thesis by (cases rest) (auto simp: nn_def)
      next
        assume "sublist (nn @ nn) rest"
        moreover have "length rest < length s" using s rest by simp
        ultimately show ?thesis using "1.IH" by blast
      qed
      with qs nqs show ?thesis by simp
    qed
  qed
qed

lemma format_response_shape:
  "format_response s = [] \<or>
     (\<not> is_space (hd (format_response s)) \<and> \<not> is_space (last (format_response s)) \<and>
      split nn (format_response s) = paragraphs_of s)"
proof (cases "paragraphs_of s = []")
  case True
  then show ?thesis by (simp add: format_response_def)
next
  case False
  have g: "\<forall>p \<in> set (paragraphs_of s). clean_paragraph p" by (simp add: paragraphs_good)
  from join_ends[OF False g] split_join[OF False g] g False
  show ?thesis by (auto simp: format_response_def clean_paragraph_def)
qed

text \<open>
  Claim C8. Formatting a formatted text changes nothing; a formatted text is empty or
  starts and ends with a character that is not white space; it never holds two blank-line
  separators in a row (an empty paragraph between them); and every paragraph the
  separators delimit in a non-empty formatted text has something other than white space.
\<close>

theorem format_response_normal_form:
  "format_response (format_response s) = format_response s \<and>
   (format_response s = [] \<or>
      (\<not> is_space (hd (format_response s)) \<and> \<not> is_space (last (format_response s)))) \<and>
   \<not> sublist (nn @ nn) (format_response s) \<and>
   (\<forall>p \<in> set (split nn (format_response s)). format_response s = [] \<or> strip p \<noteq> [])"
proof -
  have a: "format_response (format_response s) = format_response s"
    unfolding format_response_def[of s]
    by (rule format_join) (simp add: paragraphs_good)
  have g: "\<And>p. p \<in> set (paragraphs_of s) \<Longrightarrow> p \<noteq> [] \<and> strip p = p"
    using paragraphs_good by (auto simp: clean_paragraph_def intro: strip_fixed)
  have c: "\<not> sublist (nn @ nn) (format_response s)"
  proof (cases "format_response s = []")
    case True
    then show ?thesis by (simp add: nn_def)
  next
    case False
    with format_response_shape[of s] have "split nn (format_response s) = paragraphs_of s"
      by simp
    with g have "[] \<notin> set (split nn (format_response s))" by auto
    then show ?thesis using split_empty_piece by blast
  qed
  have d: "\<forall>p \<in> set (split nn (format_response s)). format_response s = [] \<or> strip p \<noteq> []"
    using format_response_shape[of s] g by auto
  from a format_response_shape[of s] c d show ?thesis by blast
qed

text \<open>An instance, with leading blanks, runs of newlines and a blank paragraph.\<close>

theorem format_response_normal_form_witness:
  "format_response ('' a  '' @ nn @ nn @ [CHR 0x0A] @ '' b'' @ nn @ ''  '' @ nn @ ''c '') = ''a'' @ nn @ ''b'' @ nn @ ''c'' \<and>
   format_response (''a'' @ nn @ ''b'' @ nn @ ''c'') = ''a'' @ nn @ ''b'' @ nn @ ''c'' \<and>
   \<not> sublist (nn @ nn) (''a'' @ nn @ ''b'' @ nn @ ''c'') \<and>
   list_all (\<lambda>p. strip p \<noteq> []) (split nn (''a'' @ nn @ ''b'' @ nn @ ''c''))"
proof -
  let ?s = "'' a  '' @ nn @ nn @ [CHR 0x0A] @ '' b'' @ nn @ ''  '' @ nn @ ''c ''"
  have e: "format_response ?s = ''a'' @ nn @ ''b'' @ nn @ ''c''" by code_simp
  have ne: "''a'' @ nn @ ''b'' @ nn @ ''c'' \<noteq> []" by simp
  from format_response_normal_form[of ?s] ne show ?thesis
    unfolding e by (simp add: list_all_iff)
qed

section \<open>Properties of the checkpoint store\<close>

lemma deserialize_encoded:
  assumes "cls m = HumanMessage \<or> cls m = AIMessage"
  shows "deserialize_messages (MessageEncoder_default m) = Inr (PMsg m)"
  using assms by (auto simp: MessageEncoder_default_def make_message_def)

lemma deserialize_list_encoded:
  assumes "\<forall>m \<in> set ms. cls m = HumanMessage \<or> cls m = AIMessage"
  shows "deserialize_list (map MessageEncoder_default ms) = Inr (map PMsg ms)"
  using assms by (induction ms) (simp_all add: deserialize_encoded)

lemma deserialize_state:
  assumes "\<forall>m \<in> set ms. cls m = HumanMessage \<or> cls m = AIMessage"
  shows "deserialize_messages
           (dumps (PDict [(''messages'', PList (map PMsg ms)), (''language'', PStr lang)]))
         = Inr (PDict [(''messages'', PList (map PMsg ms)), (''language'', PStr lang)])"
  using deserialize_list_encoded[OF assms] by (simp add: comp_def)

lemma saver_get_after_put:
  assumes "put_fault s = None" and "get_fault s = None"
  shows "\<exists>s'. saver_put s sid data metadata new_versions last_updated = Inr s' \<and>
           saver_get s' sid = deserialize_messages (dumps data)"
  using assms
  by (simp add: saver_put_def put_object_def saver_get_def get_object_def unwrap_state_def)

text \<open>
  Claim C5. For every list of \<^verbatim>\<open>HumanMessage\<close> and \<^verbatim>\<open>AIMessage\<close> objects, decoding
  the encoded list gives the same list back (class, content and keyword arguments of every
  message); and when the backend is not failing, the state \<^verbatim>\<open>put\<close> writes for a session
  is the state \<^verbatim>\<open>get\<close> reads for it, with the same message objects.
\<close>

theorem put_get_roundtrip:
  assumes "\<forall>m \<in> set ms. cls m = HumanMessage \<or> cls m = AIMessage"
    and "put_fault s = None" and "get_fault s = None"
  shows "deserialize_messages (dumps (PList (map PMsg ms))) = Inr (PList (map PMsg ms)) \<and>
         (\<exists>s'. saver_put s sid
                  (PDict [(''messages'', PList (map PMsg ms)), (''language'', PStr lang)])
                  metadata new_versions last_updated = Inr s' \<and>
               saver_get s' sid =
                 Inr (PDict [(''messages'', PList (map PMsg ms)), (''language'', PStr lang)]))"
proof -
  have "deserialize_messages (dumps (PList (map PMsg ms))) = Inr (PList (map PMsg ms))"
    using deserialize_list_encoded[OF assms(1)] by (simp add: comp_def)
  moreover from saver_get_after_put[OF assms(2,3)] deserialize_state[OF assms(1)]
  have "\<exists>s'. saver_put s sid
                  (PDict [(''messages'', PList (map PMsg ms)), (''language'', PStr lang)])
                  metadata new_versions last_updated = Inr s' \<and>
               saver_get s' sid =
                 Inr (PDict [(''messages'', PList (map PMsg ms)), (''language'', PStr lang)])"
    by metis
  ultimately show ?thesis by blast
qed

text \<open>
  An instance, with a message that carries keyword arguments.
\<close>

theorem put_get_roundtrip_witness:
  "list_all (\<lambda>m. cls m = HumanMessage \<or> cls m = AIMessage)
     [human_message ''Hello'',
      \<lparr>cls = AIMessage, content = ''Hi there'', additional_kwargs = [(''model'', JStr ''kb'')]\<rparr>] \<and>
   put_fault \<lparr>objects = Map.empty, get_fault = None, put_fault = None\<rparr> = None \<and>
   get_fault \<lparr>objects = Map.empty, get_fault = None, put_fault = None\<rparr> = None \<and>
   (case saver_put \<lparr>objects = Map.empty, get_fault = None, put_fault = None\<rparr> ''t1''
           (PDict [(''messages'', PList (map PMsg
                      [human_message ''Hello'',
                       \<lparr>cls = AIMessage, content = ''Hi there'',
                         additional_kwargs = [(''model'', JStr ''kb'')]\<rparr>])),
                   (''language'', PStr ''English'')])
           (Some [(''language'', PStr ''English'')]) None ''2025-01-01T10:00:01'' of
      Inl e \<Rightarrow> False
    | Inr memory \<Rightarrow>
        saver_get memory ''t1'' =
          Inr (PDict [(''messages'', PList
                         [PMsg (human_message ''Hello''),
                          PMsg \<lparr>cls = AIMessage, content = ''Hi there'',
                                 additional_kwargs = [(''model'', JStr ''kb'')]\<rparr>]),
                      (''language'', PStr ''English'')]))"
proof -
  let ?ms = "[human_message ''Hello'',
      \<lparr>cls = AIMessage, content = ''Hi there'', additional_kwargs = [(''model'', JStr ''kb'')]\<rparr>]"
  let ?s = "\<lparr>objects = Map.empty, get_fault = None, put_fault = None\<rparr>"
  have a: "list_all (\<lambda>m. cls m = HumanMessage \<or> cls m = AIMessage) ?ms"
    by (simp add: human_message_def)
  then have h1: "\<forall>m \<in> set ?ms. cls m = HumanMessage \<or> cls m = AIMessage"
    by (simp only: list_all_iff)
  have h2: "put_fault ?s = None" by simp
  have h3: "get_fault ?s = None" by simp
  from put_get_roundtrip[OF h1 h2 h3, of "''t1''" "''English''"
        "Some [(''language'', PStr ''English'')]" None "''2025-01-01T10:00:01''"]
  obtain s' where
    "saver_put ?s ''t1''
       (PDict [(''messages'', PList (map PMsg ?ms)), (''language'', PStr ''English'')])
       (Some [(''language'', PStr ''English'')]) None ''2025-01-01T10:00:01'' = Inr s'"
    "saver_get s' ''t1'' =
       Inr (PDict [(''messages'', PList (map PMsg ?ms)), (''language'', PStr ''English'')])"
    by blast
  with a h2 h3 show ?thesis by simp
qed

text \<open>
  Claim C1 fails on the code. \<^verbatim>\<open>_save_checkpoint\<close> stores the language in the metadata of
  the record; \<^verbatim>\<open>get\<close> returns only what is under \<^verbatim>\<open>state\<close>, so the lookup of
  \<^verbatim>\<open>"metadata"\<close> in \<^verbatim>\<open>get_chat_history\<close> finds nothing: the record below holds the
  language \<open>French\<close> in its metadata and the history answers \<open>English\<close>.
\<close>

theorem history_language_lost:
  "(case save_checkpoint \<lparr>objects = Map.empty, get_fault = None, put_fault = None\<rparr> ''t1''
           [human_message ''Bonjour'', ai_message refusal] ''French''
           ''2025-01-01T10:00:00'' ''2025-01-01T10:00:01'' of
      Inl e \<Rightarrow> False
    | Inr memory \<Rightarrow>
        (case objects memory (get_s3_key ''t1'') of
           Some (Json (JObj doc)) \<Rightarrow>
             (case map_of doc ''metadata'' of
                Some (JObj metadata) \<Rightarrow> map_of metadata ''language'' = Some (JStr ''French'')
              | _ \<Rightarrow> False)
         | _ \<Rightarrow> False) \<and>
        get_chat_history memory (\<lambda>k. 100 + k) ''t1'' =
          Inr \<lparr>thread_id = ''t1'',
               messages = [\<lparr>m_content = ''Bonjour'', role = ''human'', timestamp = 100\<rparr>,
                           \<lparr>m_content = refusal, role = ''assistant'', timestamp = 100\<rparr>],
               language = ''English''\<rparr>)"
  by code_simp

text \<open>
  Claim C2, as stated, fails: with the backend answering reads with \<open>AccessDenied\<close>, the
  history read does not return the empty transcript; it raises the error, and the route
  answers 500.
\<close>

theorem history_storage_error_counterexample:
  "get_fault \<lparr>objects = Map.empty, get_fault = Some ''AccessDenied'', put_fault = None\<rparr>
     = Some ''AccessDenied'' \<and>
   ''AccessDenied'' \<noteq> ''NoSuchKey'' \<and>
   get_chat_history \<lparr>objects = Map.empty, get_fault = Some ''AccessDenied'', put_fault = None\<rparr>
     (\<lambda>k. k) ''t1'' = Inl (ClientError ''AccessDenied'') \<and>
   get_chat_history \<lparr>objects = Map.empty, get_fault = Some ''AccessDenied'', put_fault = None\<rparr>
     (\<lambda>k. k) ''t1'' \<noteq> Inr \<lparr>thread_id = ''t1'', messages = [], language = ''English''\<rparr> \<and>
   main_get_chat_history
     \<lparr>objects = Map.empty, get_fault = Some ''AccessDenied'', put_fault = None\<rparr>
     (\<lambda>k. k) ''t1'' = HTTPException 500 (ErrorText (ClientError ''AccessDenied''))"
  by (simp add: get_chat_history_def main_get_chat_history_def saver_get_def get_object_def)

text \<open>
  Claim C2, amended. For every thread, when the backend fails a read with an error code
  other than \<open>NoSuchKey\<close>, \<^verbatim>\<open>get_chat_history\<close> raises that error again and the HTTP route
  turns it into a 500 response that carries it.
\<close>

theorem history_storage_error_propagates:
  assumes "get_fault memory = Some code" and "code \<noteq> ''NoSuchKey''"
  shows "get_chat_history memory now tid = Inl (ClientError code) \<and>
         main_get_chat_history memory now tid = HTTPException 500 (ErrorText (ClientError code))"
  using assms
  by (simp add: get_chat_history_def main_get_chat_history_def saver_get_def get_object_def)

theorem history_storage_error_propagates_witness:
  "get_fault \<lparr>objects = Map.empty, get_fault = Some ''InternalError'', put_fault = None\<rparr>
     = Some ''InternalError'' \<and>
   ''InternalError'' \<noteq> ''NoSuchKey'' \<and>
   get_chat_history
     \<lparr>objects = Map.empty, get_fault = Some ''InternalError'', put_fault = None\<rparr>
     (\<lambda>k. k) ''t7'' = Inl (ClientError ''InternalError'') \<and>
   main_get_chat_history
     \<lparr>objects = Map.empty, get_fault = Some ''InternalError'', put_fault = None\<rparr>
     (\<lambda>k. k) ''t7'' = HTTPException 500 (ErrorText (ClientError ''InternalError''))"
proof -
  let ?s = "\<lparr>objects = Map.empty, get_fault = Some ''InternalError'', put_fault = None\<rparr>"
  have h1: "get_fault ?s = Some ''InternalError''" by simp
  have h2: "''InternalError'' \<noteq> ''NoSuchKey''" by simp
  from history_storage_error_propagates[OF h1 h2, of "\<lambda>k. k" "''t7''"] h1 h2
  show ?thesis by blast
qed

text \<open>
  The path that does absorb such an error is the session cache: on a miss it caches and
  returns an empty history.
\<close>

lemma session_cache_swallows:
  assumes "get_fault memory = Some code" and "code \<noteq> ''NoSuchKey''"
    and "chat_histories sid = None"
  shows "get_or_create_chat_history memory chat_histories sid =
           (PList [], chat_histories(sid \<mapsto> PList []))"
  using assms
  by (simp add: get_or_create_chat_history_def saver_get_def get_object_def Let_def)

section \<open>Properties of the history reconstructor\<close>

lemma stride_drop_pair:
  assumes "Suc i < length xs"
  shows "drop i xs = xs ! i # xs ! Suc i # drop (i + 2) xs"
  using assms by (simp add: Cons_nth_drop_Suc)

lemma stride_drop_last:
  assumes "i < length xs" and "\<not> Suc i < length xs"
  shows "drop i xs = [xs ! i]" and "drop (Suc (Suc i)) xs = []"
proof -
  have "drop i xs = xs ! i # drop (Suc i) xs" using assms(1) by (simp add: Cons_nth_drop_Suc)
  with assms(2) show "drop i xs = [xs ! i]" by simp
  show "drop (Suc (Suc i)) xs = []" using assms(2) by simp
qed

lemma history_loop_messages:
  assumes "\<forall>v \<in> set xs. is_message v"
  shows "history_loop xs now i calls acc =
           Inr (acc @ stride_transcript now calls (drop i xs))"
proof (induction "length xs - i" arbitrary: i calls acc rule: less_induct)
  case less
  show ?case
  proof (cases "i < length xs")
    case False
    then show ?thesis by (subst history_loop.simps) simp
  next
    case True
    have IH: "history_loop xs now (Suc (Suc i)) c a =
                Inr (a @ stride_transcript now c (drop (Suc (Suc i)) xs))" for c a
      using less[of "Suc (Suc i)" c a] True by simp
    from assms True obtain m where m: "xs ! i = PMsg m"
      by (cases "xs ! i") (auto simp: all_set_conv_all_nth)
    show ?thesis
    proof (cases "Suc i < length xs")
      case pair: True
      with assms obtain a where a: "xs ! Suc i = PMsg a"
        by (cases "xs ! Suc i") (auto simp: all_set_conv_all_nth)
      have d: "drop i xs = PMsg m # PMsg a # drop (i + 2) xs"
        using stride_drop_pair[OF pair] m a by simp
      show ?thesis
        by (subst history_loop.simps) (simp add: True pair m a d IH Let_def)
    next
      case single: False
      have d: "drop i xs = [PMsg m]" "drop (Suc (Suc i)) xs = []"
        using stride_drop_last[OF True single] m by simp_all
      show ?thesis
        by (subst history_loop.simps) (simp add: True single m d IH Let_def)
    qed
  qed
qed

lemma get_chat_history_transcript:
  assumes "saver_get memory tid = Inr (PDict checkpoint)"
    and "map_of checkpoint ''messages'' = Some (PList msg_list)"
    and "\<forall>v \<in> set msg_list. is_message v"
    and "checkpoint_language checkpoint = Inr l"
  shows "get_chat_history memory now tid =
           Inr \<lparr>thread_id = tid, messages = stride_transcript now 0 msg_list, language = l\<rparr>"
  using assms(1,2,4) history_loop_messages[OF assms(3), of now 0 0 "[]"]
  by (simp add: get_chat_history_def reconstruct_def)

lemma stride_roles:
  "\<forall>i < length (stride_transcript now k xs).
     role (stride_transcript now k xs ! i) = (if even i then ''human'' else ''assistant'')"
proof (induction now k xs rule: stride_transcript.induct)
  case (1 now k)
  then show ?case by simp
next
  case (2 now k h)
  then show ?case by simp
next
  case (3 now k h a rest)
  show ?case
  proof (cases "is_human h")
    case False
    with 3 show ?thesis by simp
  next
    case True
    with 3 have IH: "\<forall>i < length (stride_transcript now (k + 1) rest).
           role (stride_transcript now (k + 1) rest ! i) = (if even i then ''human'' else ''assistant'')"
      by simp
    show ?thesis
    proof (intro allI impI)
      fix i assume i: "i < length (stride_transcript now k (h # a # rest))"
      show "role (stride_transcript now k (h # a # rest) ! i) = (if even i then ''human'' else ''assistant'')"
      proof (cases i)
        case 0
        with True show ?thesis by simp
      next
        case (Suc j)
        show ?thesis
        proof (cases j)
          case 0
          with Suc True show ?thesis by simp
        next
          case (Suc n)
          with \<open>i = Suc j\<close> i True IH show ?thesis by simp
        qed
      qed
    qed
  qed
qed




text \<open>
  Claim C10, as stated, fails: a stored list may hold an entry that is not a message. The
  record below holds \<^verbatim>\<open>null\<close> after its first human message; \<^verbatim>\<open>if assistant_msg:\<close>
  drops it, and the transcript returned has a human message at index 1, in the middle,
  with no assistant message after the human message at index 0.
\<close>

theorem get_chat_history_roles_counterexample:
  "get_chat_history
     \<lparr>objects = [get_s3_key ''t9'' \<mapsto> Json (JObj
         [(''state'', JObj
            [(''messages'', JArr
               [MessageEncoder_default (human_message ''a''), JNull,
                MessageEncoder_default (human_message ''b''),
                MessageEncoder_default (ai_message ''c'')]),
             (''language'', JStr ''English'')])])],
      get_fault = None, put_fault = None\<rparr> (\<lambda>k. 100 + k) ''t9''
   = Inr \<lparr>thread_id = ''t9'',
          messages =
            [\<lparr>m_content = ''a'', role = ''human'', timestamp = 100\<rparr>,
             \<lparr>m_content = ''b'', role = ''human'', timestamp = 101\<rparr>,
             \<lparr>m_content = ''c'', role = ''assistant'', timestamp = 101\<rparr>],
          language = ''English''\<rparr> \<and>
   map_sum id (\<lambda>response. role (messages response ! 1))
     (get_chat_history
        \<lparr>objects = [get_s3_key ''t9'' \<mapsto> Json (JObj
            [(''state'', JObj
               [(''messages'', JArr
                  [MessageEncoder_default (human_message ''a''), JNull,
                   MessageEncoder_default (human_message ''b''),
                   MessageEncoder_default (ai_message ''c'')]),
                (''language'', JStr ''English'')])])],
         get_fault = None, put_fault = None\<rparr> (\<lambda>k. 100 + k) ''t9'')
   = Inr ''human''"
  by code_simp

text \<open>
  Claim C10, amended. For every stored checkpoint whose message list holds only message
  objects (and whose language lookup succeeds), the transcript returned has role
  \<open>human\<close> at every even index and role \<open>assistant\<close> at every odd index, and a human
  message that is not the last element is followed by an assistant message.
\<close>

theorem get_chat_history_roles:
  assumes "saver_get memory tid = Inr (PDict checkpoint)"
    and "map_of checkpoint ''messages'' = Some (PList msg_list)"
    and "\<forall>v \<in> set msg_list. is_message v"
    and "checkpoint_language checkpoint = Inr l"
  shows "\<exists>response. get_chat_history memory now tid = Inr response \<and>
           (\<forall>i < length (messages response).
              role (messages response ! i) = (if even i then ''human'' else ''assistant'')) \<and>
           (\<forall>i < length (messages response).
              role (messages response ! i) = ''human'' \<and> Suc i \<noteq> length (messages response)
              \<longrightarrow> role (messages response ! Suc i) = ''assistant'')"
proof -
  let ?t = "stride_transcript now 0 msg_list"
  have alt: "\<forall>i < length ?t. role (?t ! i) = (if even i then ''human'' else ''assistant'')"
    by (rule stride_roles)
  have "role (?t ! Suc i) = ''assistant''"
    if "i < length ?t" and "role (?t ! i) = ''human''" and "Suc i \<noteq> length ?t" for i
  proof -
    from that(1,2) alt have "even i" by (cases "even i") auto
    moreover from that(1,3) have "Suc i < length ?t" by simp
    ultimately show ?thesis using alt by simp
  qed
  with alt get_chat_history_transcript[OF assms, of now] show ?thesis by simp
qed

text \<open>
  An instance, on a record stored without the \<^verbatim>\<open>state\<close> envelope.
\<close>

theorem get_chat_history_roles_witness:
  "saver_get
     \<lparr>objects = [get_s3_key ''legacy'' \<mapsto> Json (dumps (PDict
         [(''messages'', PList
             [PMsg (human_message ''hi''), PMsg (ai_message ''hello''),
              PMsg (human_message ''more'')]),
          (''metadata'', PDict [(''language'', PStr ''French'')])]))],
      get_fault = None, put_fault = None\<rparr> ''legacy''
   = Inr (PDict
       [(''messages'', PList
           [PMsg (human_message ''hi''), PMsg (ai_message ''hello''),
            PMsg (human_message ''more'')]),
        (''metadata'', PDict [(''language'', PStr ''French'')])]) \<and>
   list_all is_message
     [PMsg (human_message ''hi''), PMsg (ai_message ''hello''), PMsg (human_message ''more'')] \<and>
   checkpoint_language
     [(''messages'', PList
         [PMsg (human_message ''hi''), PMsg (ai_message ''hello''),
          PMsg (human_message ''more'')]),
      (''metadata'', PDict [(''language'', PStr ''French'')])] = Inr ''French'' \<and>
   map_sum id (\<lambda>response. map role (messages response))
     (get_chat_history
        \<lparr>objects = [get_s3_key ''legacy'' \<mapsto> Json (dumps (PDict
            [(''messages'', PList
                [PMsg (human_message ''hi''), PMsg (ai_message ''hello''),
                 PMsg (human_message ''more'')]),
             (''metadata'', PDict [(''language'', PStr ''French'')])]))],
         get_fault = None, put_fault = None\<rparr> (\<lambda>k. k) ''legacy'')
   = Inr [''human'', ''assistant'', ''human'']"
proof -
  let ?ml = "[PMsg (human_message ''hi''), PMsg (ai_message ''hello''),
              PMsg (human_message ''more'')]"
  let ?cp = "[(''messages'', PList ?ml), (''metadata'', PDict [(''language'', PStr ''French'')])]"
  let ?mem = "\<lparr>objects = [get_s3_key ''legacy'' \<mapsto> Json (dumps (PDict ?cp))],
               get_fault = None, put_fault = None\<rparr>"
  have h1: "saver_get ?mem ''legacy'' = Inr (PDict ?cp)" by code_simp
  have h2: "map_of ?cp ''messages'' = Some (PList ?ml)" by simp
  have a: "list_all is_message ?ml" by code_simp
  then have h3: "\<forall>v \<in> set ?ml. is_message v" by (simp only: list_all_iff)
  have h4: "checkpoint_language ?cp = Inr ''French''" by code_simp
  from get_chat_history_roles[OF h1 h2 h3 h4, of "\<lambda>k. k"] obtain response where
    r: "get_chat_history ?mem (\<lambda>k. k) ''legacy'' = Inr response"
       "\<forall>i < length (messages response).
          role (messages response ! i) = (if even i then ''human'' else ''assistant'')"
    by blast
  have e: "map_sum id (\<lambda>response. length (messages response))
             (get_chat_history ?mem (\<lambda>k. k) ''legacy'') = Inr 3"
    by code_simp
  with r(1) have len: "length (messages response) = 3" by simp
  then obtain x y z where xyz: "messages response = [x, y, z]"
    by (auto simp: length_Suc_conv numeral_3_eq_3)
  from r(2) len have "role (messages response ! 0) = ''human''"
    "role (messages response ! 1) = ''assistant''" "role (messages response ! 2) = ''human''"
    by simp_all
  with xyz have "map role (messages response) = [''human'', ''assistant'', ''human'']" by simp
  with r(1) have "map_sum id (\<lambda>response. map role (messages response))
     (get_chat_history ?mem (\<lambda>k. k) ''legacy'') = Inr [''human'', ''assistant'', ''human'']"
    by simp
  with h1 a h4 show ?thesis by (simp only:)
qed

end
